theory Spec2Isabelle
  imports Main "HOL-Library.Multiset" "HOL-Library.Char_ord" "HOL-Library.List_Lexorder" "HOL-Library.Product_Lexorder"
begin

section \<open>Strings and paths\<close>

text \<open>
  Python strings are modelled as \<open>string\<close>, the list of the bytes of their UTF-8
  encoding (file names are taken to be valid UTF-8): the order of two strings by code
  points is the order of their encodings, and a dot or a slash is a byte of its own.
  \<open>str.lower\<close>, which lower-cases by the Unicode tables, is a parameter of the model
  (\<open>str_lower\<close> below).
\<close>

definition startswith :: "string \<Rightarrow> string \<Rightarrow> bool" where
  "startswith s p = (take (length p) s = p)"

text \<open>\<open>s.split(c)\<close>: the pieces of \<open>s\<close> between the occurrences of \<open>c\<close>.\<close>

fun split_sep :: "char \<Rightarrow> string \<Rightarrow> string list" where
  "split_sep c [] = [[]]"
| "split_sep c (x # xs) =
     (if x = c then [] # split_sep c xs
      else (x # hd (split_sep c xs)) # tl (split_sep c xs))"

text \<open>\<open>'/'.join(parts)\<close>.\<close>

fun sep_join :: "string list \<Rightarrow> string" where
  "sep_join [] = []"
| "sep_join [x] = x"
| "sep_join (x # y # ys) = x @ ''/'' @ sep_join (y # ys)"

text \<open>
  The part of \<open>pathlib\<close> the player uses, for the POSIX flavour: a path is its root
  (\<open>''''\<close>, \<open>''/''\<close> or \<open>''//''\<close>) and the list of its components.
\<close>

record pure_path =
  p_root :: string
  p_tail :: "string list"

text \<open>\<open>posixpath.splitroot\<close>, without the drive (always empty on POSIX).\<close>

definition splitroot :: "string \<Rightarrow> string \<times> string" where
  "splitroot p =
     (if take 1 p \<noteq> ''/'' then ('''', p)
      else if take 1 (drop 1 p) \<noteq> ''/'' \<or> take 1 (drop 2 p) = ''/'' then (''/'', drop 1 p)
      else (take 2 p, drop 2 p))"

text \<open>\<open>Path(s)\<close>: empty and \<open>.\<close> components are dropped.\<close>

definition Path :: "string \<Rightarrow> pure_path" where
  "Path s =
     (if s = [] then \<lparr>p_root = [], p_tail = []\<rparr>
      else \<lparr>p_root = fst (splitroot s),
            p_tail = filter (\<lambda>x. x \<noteq> [] \<and> x \<noteq> ''.'') (split_sep (CHR ''/'') (snd (splitroot s)))\<rparr>)"

text \<open>\<open>str(p)\<close>.\<close>

definition str :: "pure_path \<Rightarrow> string" where
  "str p =
     (let s = p_root p @ sep_join (p_tail p) in if s = [] then ''.'' else s)"

text \<open>\<open>p.parent\<close>: a path without components is its own parent.\<close>

definition parent :: "pure_path \<Rightarrow> pure_path" where
  "parent p = (if p_tail p = [] then p else p\<lparr>p_tail := butlast (p_tail p)\<rparr>)"

text \<open>\<open>posixpath.join(a, b)\<close>, and \<open>Path(a) / b\<close>, which parses the joined string.\<close>

definition posix_join :: "string \<Rightarrow> string \<Rightarrow> string" where
  "posix_join a b =
     (if startswith b ''/'' then b
      else if a = [] \<or> last a = CHR ''/'' then a @ b
      else a @ ''/'' @ b)"

definition path_div :: "string \<Rightarrow> string \<Rightarrow> pure_path" where
  "path_div a b = Path (posix_join a b)"

text \<open>
  The string of the child \<open>name\<close> of a directory, as \<open>iterdir\<close> builds it, and the
  suffix of a file name (\<open>rfind\<close> gives the last dot; a leading or a trailing dot is no
  suffix). Positions count bytes; the two tests on the position of the dot say the same
  of the bytes as of the code points.
\<close>

definition child_str :: "pure_path \<Rightarrow> string \<Rightarrow> string" where
  "child_str p name =
     (if p_tail p \<noteq> [] then str p @ ''/'' @ name
      else if str p \<noteq> ''.'' then str p @ name
      else name)"

fun rfind_from :: "char \<Rightarrow> string \<Rightarrow> nat \<Rightarrow> nat option" where
  "rfind_from c [] i = None"
| "rfind_from c (x # xs) i =
     (case rfind_from c xs (Suc i) of
        Some j \<Rightarrow> Some j
      | None \<Rightarrow> if x = c then Some i else None)"

definition suffix :: "string \<Rightarrow> string" where
  "suffix name =
     (case rfind_from (CHR ''.'') name 0 of
        None \<Rightarrow> []
      | Some i \<Rightarrow> if 0 < i \<and> i < length name - 1 then drop i name else [])"

section \<open>The filesystem and the settings store\<close>

datatype py_error = OSError | AttributeError

text \<open>
  The filesystem is a parameter: \<open>fs_is_dir\<close> answers \<open>Path.is_dir\<close> for the string of a
  path, \<open>fs_listdir\<close> gives the names in a directory in the order of the operating
  system, or the error that \<open>iterdir\<close> raises. \<open>HOME\<close> is the home directory, and
  \<open>str_lower\<close> is \<open>str.lower\<close>.
\<close>

record env =
  HOME :: string
  fs_is_dir :: "string \<Rightarrow> bool"
  fs_listdir :: "string \<Rightarrow> py_error + string list"
  str_lower :: "string \<Rightarrow> string"

definition is_dir :: "env \<Rightarrow> pure_path \<Rightarrow> bool" where
  "is_dir e p = fs_is_dir e (str p)"

definition EXTENSIONS :: "string set" where
  "EXTENSIONS = {''.aac'', ''.aif'', ''.aiff'', ''.flac'', ''.mp3'', ''.ogg'', ''.wav''}"

text \<open>
  The condition of the list comprehension on the child \<open>name\<close> of \<open>p\<close>, the sort key,
  and the listing itself (the source has it twice: at start-up and in \<open>update_files\<close>).
\<close>

definition child_is_dir :: "env \<Rightarrow> pure_path \<Rightarrow> string \<Rightarrow> bool" where
  "child_is_dir e p name = fs_is_dir e (child_str p name)"

definition shown :: "env \<Rightarrow> pure_path \<Rightarrow> string \<Rightarrow> bool" where
  "shown e p name =
     (\<not> startswith name ''.'' \<and> (child_is_dir e p name \<or> str_lower e (suffix name) \<in> EXTENSIONS))"

definition sort_key' :: "env \<Rightarrow> pure_path \<Rightarrow> string \<Rightarrow> bool \<times> string" where
  "sort_key' e p name = (\<not> child_is_dir e p name, str_lower e name)"

definition entries_sorted :: "env \<Rightarrow> string \<Rightarrow> py_error + string list" where
  "entries_sorted e loc =
     (case fs_listdir e (str (Path loc)) of
        Inl err \<Rightarrow> Inl err
      | Inr names \<Rightarrow>
          Inr (sort_key (sort_key' e (Path loc)) (filter (shown e (Path loc)) names)))"

section \<open>The state of the player\<close>

text \<open>
  The settings store maps a key to a value. The commands sent to the media player and to
  its audio output are recorded in the order they are issued.
\<close>

datatype qvariant = QString string | QInt int

datatype engine_cmd =
    SetSource string
  | Play
  | Pause
  | Stop
  | SetPosition int
  | SetVolume int  \<comment> \<open>\<open>output.setVolume(volume / 100)\<close>, recorded by \<open>volume\<close>\<close>
  | SetMuted bool

datatype media_status = EndOfMedia | OtherStatus

text \<open>
  The module's global variables, the settings, and the widgets whose state the handlers
  set or read: the items and the current row of \<open>files_list\<close> (\<open>-1\<close>: no current item),
  whether each transport button is enabled, the value of \<open>volume_bar\<close> (a slider from 0
  to 100) and the window title. Labels, icons and the time bar only display the state.
\<close>

record state =
  location :: string
  volume :: int
  current :: int
  index :: int
  is_muted :: bool
  is_playing :: bool
  length' :: int
  title :: string
  settings :: "string \<rightharpoonup> qvariant"
  files_list :: "string list"
  current_row :: int
  back_enabled :: bool
  stop_enabled :: bool
  play_pause_enabled :: bool
  forward_enabled :: bool
  volume_bar :: int
  window_title :: string
  engine :: "engine_cmd list"

section \<open>The handlers\<close>

definition save_setting :: "string \<Rightarrow> qvariant \<Rightarrow> state \<Rightarrow> state" where
  "save_setting name v s = s\<lparr>settings := (settings s)(name \<mapsto> v)\<rparr>"

definition verify_location :: "env \<Rightarrow> state \<Rightarrow> state" where
  "verify_location e s =
     (if \<not> is_dir e (Path (location s))
      then save_setting ''location'' (QString (HOME e)) (s\<lparr>location := HOME e\<rparr>)
      else s)"

text \<open>\<open>QSlider.setValue\<close> keeps the value inside the range of the slider.\<close>

definition change_volume :: "int \<Rightarrow> state \<Rightarrow> state" where
  "change_volume new_volume s =
     save_setting ''volume'' (QInt new_volume)
       (s\<lparr>volume := new_volume,
          engine := engine s @ [SetVolume new_volume],
          volume_bar := max 0 (min 100 new_volume)\<rparr>)"

text \<open>\<open>int(time / 1000)\<close> rounds towards zero.\<close>

definition int_div_1000 :: "int \<Rightarrow> int" where
  "int_div_1000 t = (if 0 \<le> t then t div 1000 else - ((- t) div 1000))"

definition update_length :: "int \<Rightarrow> state \<Rightarrow> state" where
  "update_length t s = s\<lparr>length' := int_div_1000 t\<rparr>"

definition update_current :: "int \<Rightarrow> state \<Rightarrow> state" where
  "update_current t s = s\<lparr>current := int_div_1000 t\<rparr>"

definition update_window_title :: "state \<Rightarrow> state" where
  "update_window_title s =
     (let name = (case rfind_from (CHR ''.'') (title s) 0 of
                    Some i \<Rightarrow> take i (title s)
                  | None \<Rightarrow> title s)
      in s\<lparr>window_title := ''PyMu Player'' @ (if title s \<noteq> [] then '' - '' @ name else [])\<rparr>)"

definition update_skip_buttons :: "state \<Rightarrow> state" where
  "update_skip_buttons s =
     (let s1 = s\<lparr>back_enabled := False, forward_enabled := False\<rparr> in
      if index s1 = -1 then s1
      else
        let s2 = (if index s1 > 0 then s1\<lparr>back_enabled := True\<rparr> else s1) in
        if index s2 < int (length (files_list s2)) - 1 then s2\<lparr>forward_enabled := True\<rparr>
        else s2)"

definition stop :: "state \<Rightarrow> state" where
  "stop s =
     update_skip_buttons
       (update_current 0
         (update_length 0
           (update_window_title
             (s\<lparr>engine := engine s @ [Stop],
                is_playing := False,
                play_pause_enabled := False,
                stop_enabled := False,
                title := [],
                index := -1\<rparr>))))"

definition play :: "state \<Rightarrow> state" where
  "play s = s\<lparr>engine := engine s @ [Play], is_playing := True\<rparr>"

definition play_pause :: "state \<Rightarrow> state" where
  "play_pause s =
     (if is_playing s then s\<lparr>engine := engine s @ [Pause], is_playing := False\<rparr>
      else play s)"

definition change_time :: "int \<Rightarrow> state \<Rightarrow> state" where
  "change_time t s = s\<lparr>engine := engine s @ [SetPosition (t * 1000)]\<rparr>"

definition mute :: "state \<Rightarrow> state" where
  "mute s =
     (let m = \<not> is_muted s in s\<lparr>is_muted := m, engine := engine s @ [SetMuted m]\<rparr>)"

text \<open>
  \<open>files_list.clear()\<close> also leaves the list without a current item. The listing can
  raise; the exception leaves the handler, which is the result \<open>Inl\<close>.
\<close>

definition update_files :: "env \<Rightarrow> state \<Rightarrow> py_error + state" where
  "update_files e s =
     (let s1 = verify_location e s;
          s2 = s1\<lparr>files_list := [], current_row := -1\<rparr>
      in case entries_sorted e (location s2) of
           Inl err \<Rightarrow> Inl err
         | Inr names \<Rightarrow> Inr (s2\<lparr>files_list := names\<rparr>))"

definition change_location :: "env \<Rightarrow> state \<Rightarrow> py_error + state" where
  "change_location e s = update_files e (save_setting ''location'' (QString (location s)) s)"

definition home :: "env \<Rightarrow> state \<Rightarrow> py_error + state" where
  "home e s = change_location e (s\<lparr>location := HOME e\<rparr>)"

definition go_up :: "env \<Rightarrow> state \<Rightarrow> py_error + state" where
  "go_up e s = change_location e (s\<lparr>location := str (parent (Path (location s)))\<rparr>)"

text \<open>
  An item of \<open>files_list\<close> is modelled by its row. \<open>setCurrentRow\<close> with a row outside
  the list leaves no current item, and \<open>currentItem()\<close> is then \<open>None\<close>.
\<close>

definition set_current_row :: "int \<Rightarrow> state \<Rightarrow> state" where
  "set_current_row r s =
     s\<lparr>current_row := (if 0 \<le> r \<and> r < int (length (files_list s)) then r else -1)\<rparr>"

definition current_item :: "state \<Rightarrow> nat option" where
  "current_item s = (if current_row s < 0 then None else Some (nat (current_row s)))"

definition name :: "pure_path \<Rightarrow> string" where
  "name p = (if p_tail p = [] then [] else last (p_tail p))"

definition double_click :: "env \<Rightarrow> nat option \<Rightarrow> state \<Rightarrow> py_error + state" where
  "double_click e item s =
     (case item of
        None \<Rightarrow> Inl AttributeError
      | Some r \<Rightarrow>
          let selected = path_div (location s) (files_list s ! r) in
          if is_dir e selected then change_location e (s\<lparr>location := str selected\<rparr>)
          else
            let s1 = update_window_title
                       (s\<lparr>engine := engine s @ [SetSource (str selected)],
                          title := name selected\<rparr>);
                s2 = s1\<lparr>play_pause_enabled := True, stop_enabled := True,
                        current_row := int r, index := int r\<rparr>
            in Inr (update_skip_buttons (play s2)))"

definition previous :: "env \<Rightarrow> state \<Rightarrow> py_error + state" where
  "previous e s =
     (if index s > 0 then
        let s1 = set_current_row (index s - 1) s in double_click e (current_item s1) s1
      else Inr s)"

definition next' :: "env \<Rightarrow> state \<Rightarrow> py_error + state" where
  "next' e s =
     (if index s < int (length (files_list s)) - 1 then
        let s1 = set_current_row (index s + 1) s in double_click e (current_item s1) s1
      else Inr s)"

definition finished :: "env \<Rightarrow> media_status \<Rightarrow> state \<Rightarrow> py_error + state" where
  "finished e status s = (if status = EndOfMedia then next' e s else Inr s)"

section \<open>Start-up and events\<close>

text \<open>
  The module's top level, run once: \<open>stored_location\<close> and \<open>stored_volume\<close> are what the
  settings store holds when the program starts. The play/pause button is the one
  transport button that is not disabled here.
\<close>

definition startup :: "env \<Rightarrow> string option \<Rightarrow> int option \<Rightarrow> py_error + state" where
  "startup e stored_location stored_volume =
     (let loc = (case stored_location of None \<Rightarrow> HOME e | Some l \<Rightarrow> l);
          vol = (case stored_volume of None \<Rightarrow> 100 | Some v \<Rightarrow> v);
          s0 = \<lparr>location = loc, volume = vol, current = 0, index = -1,
                is_muted = False, is_playing = False, length' = 0, title = [],
                settings = (\<lambda>k. if k = ''location'' then map_option QString stored_location
                                else if k = ''volume'' then map_option QInt stored_volume
                                else None),
                files_list = [], current_row = -1,
                back_enabled = False, stop_enabled = False,
                play_pause_enabled = True, forward_enabled = False,
                volume_bar = max 0 (min 100 vol), window_title = [], engine = []\<rparr>;
          s1 = verify_location e s0
      in case entries_sorted e (location s1) of
           Inl err \<Rightarrow> Inl err
         | Inr files \<Rightarrow>
             Inr (update_window_title (change_volume (volume s1) s1\<lparr>files_list := files\<rparr>)))"

text \<open>
  The signals connected to the handlers. A disabled button sends no \<open>clicked\<close>, and
  \<open>itemDoubleClicked\<close> carries an item of the list.
\<close>

datatype event =
    ItemDoubleClicked nat
  | PlayPauseClicked
  | StopClicked
  | BackClicked
  | ForwardClicked
  | MediaStatusChanged media_status
  | DurationChanged int
  | PositionChanged int
  | TimeBarMoved int
  | VolumeBarMoved int
  | MuteClicked
  | HomeClicked
  | UpClicked
  | RefreshClicked

fun handle :: "env \<Rightarrow> event \<Rightarrow> state \<Rightarrow> py_error + state" where
  "handle e (ItemDoubleClicked r) s =
     (if r < length (files_list s) then double_click e (Some r) s else Inr s)"
| "handle e PlayPauseClicked s = Inr (if play_pause_enabled s then play_pause s else s)"
| "handle e StopClicked s = Inr (if stop_enabled s then stop s else s)"
| "handle e BackClicked s = (if back_enabled s then previous e s else Inr s)"
| "handle e ForwardClicked s = (if forward_enabled s then next' e s else Inr s)"
| "handle e (MediaStatusChanged status) s = finished e status s"
| "handle e (DurationChanged t) s = Inr (update_length t s)"
| "handle e (PositionChanged t) s = Inr (update_current t s)"
| "handle e (TimeBarMoved t) s = Inr (change_time t s)"
| "handle e (VolumeBarMoved v) s = Inr (change_volume v s)"
| "handle e MuteClicked s = Inr (mute s)"
| "handle e HomeClicked s = home e s"
| "handle e UpClicked s = go_up e s"
| "handle e RefreshClicked s = update_files e s"

fun run :: "env \<Rightarrow> event list \<Rightarrow> state \<Rightarrow> py_error + state" where
  "run e [] s = Inr s"
| "run e (ev # evs) s = (case handle e ev s of Inl err \<Rightarrow> Inl err | Inr s' \<Rightarrow> run e evs s')"

section \<open>An example filesystem\<close>

text \<open>
  A small home directory with a music folder, used to run the handlers on concrete
  inputs. All its names are ASCII, where \<open>str.lower\<close> changes the letters A to Z only.
\<close>

definition ascii_lower_char :: "char \<Rightarrow> char" where
  "ascii_lower_char c =
     (if CHR ''A'' \<le> c \<and> c \<le> CHR ''Z'' then char_of (of_char c + (32::nat)) else c)"

definition ascii_lower :: "string \<Rightarrow> string" where
  "ascii_lower s = map ascii_lower_char s"

definition ex_env :: env where
  "ex_env =
     \<lparr>HOME = ''/home/u'',
      fs_is_dir = (\<lambda>p. p \<in> set [''/'', ''/home'', ''/home/u'', ''/home/u/.config'',
                               ''/home/u/Music'', ''/home/u/Music/live'']),
      fs_listdir = (\<lambda>p.
        if p = ''/'' then Inr [''home'']
        else if p = ''/home'' then Inr [''u'']
        else if p = ''/home/u'' then Inr [''notes.txt'', ''Music'', ''.config'']
        else if p = ''/home/u/Music''
          then Inr [''b.MP3'', ''live'', ''a.flac'', ''.hidden.mp3'', ''cover.jpg'']
        else if p = ''/home/u/Music/live'' then Inr [''y.wav'', ''x.ogg'']
        else Inl OSError),
      str_lower = ascii_lower\<rparr>"

text \<open>
  The state after start-up in the music folder with no stored volume; the state after
  a double click on its last entry, \<open>b.MP3\<close>, and after a double click on its second
  entry, \<open>a.flac\<close>; and the states after a further double click on the folder \<open>live\<close>.
\<close>

definition fresh :: state where
  "fresh =
     \<lparr>location = ''/home/u/Music'', volume = 100, current = 0, index = -1,
      is_muted = False, is_playing = False, length' = 0, title = [],
      settings = [''location'' \<mapsto> QString ''/home/u/Music'', ''volume'' \<mapsto> QInt 100],
      files_list = [''live'', ''a.flac'', ''b.MP3''], current_row = -1,
      back_enabled = False, stop_enabled = False,
      play_pause_enabled = True, forward_enabled = False,
      volume_bar = 100, window_title = ''PyMu Player'', engine = [SetVolume 100]\<rparr>"

definition playing_last :: state where
  "playing_last =
     fresh\<lparr>index := 2, is_playing := True, title := ''b.MP3'', current_row := 2,
           back_enabled := True, stop_enabled := True, play_pause_enabled := True,
           forward_enabled := False, window_title := ''PyMu Player - b'',
           engine := [SetVolume 100, SetSource ''/home/u/Music/b.MP3'', Play]\<rparr>"

definition playing_middle :: state where
  "playing_middle =
     fresh\<lparr>index := 1, is_playing := True, title := ''a.flac'', current_row := 1,
           back_enabled := True, stop_enabled := True, play_pause_enabled := True,
           forward_enabled := True, window_title := ''PyMu Player - a'',
           engine := [SetVolume 100, SetSource ''/home/u/Music/a.flac'', Play]\<rparr>"

definition live_after_last :: state where
  "live_after_last =
     playing_last\<lparr>location := ''/home/u/Music/live'',
       settings := [''location'' \<mapsto> QString ''/home/u/Music/live'', ''volume'' \<mapsto> QInt 100],
       files_list := [''x.ogg'', ''y.wav''], current_row := -1\<rparr>"

definition live_after_middle :: state where
  "live_after_middle =
     playing_middle\<lparr>location := ''/home/u/Music/live'',
       settings := [''location'' \<mapsto> QString ''/home/u/Music/live'', ''volume'' \<mapsto> QInt 100],
       files_list := [''x.ogg'', ''y.wav''], current_row := -1\<rparr>"

text \<open>The paths that parsing produces: a root, and components without a separator.\<close>

definition wf_path :: "pure_path \<Rightarrow> bool" where
  "wf_path p =
     (p_root p \<in> {[], ''/'', ''//''} \<and>
      (\<forall>x\<in>set (p_tail p). x \<noteq> [] \<and> x \<noteq> ''.'' \<and> CHR ''/'' \<notin> set x))"

text \<open>
  The example filesystem with a music folder that is a directory and cannot be listed;
  and the state after the home button, pressed while \<open>b.MP3\<close> plays.
\<close>

definition locked_env :: env where
  "locked_env =
     ex_env\<lparr>fs_listdir :=
       (\<lambda>p. if p = ''/home/u/Music'' then Inl OSError else fs_listdir ex_env p)\<rparr>"

definition home_after_last :: state where
  "home_after_last =
     playing_last\<lparr>location := ''/home/u'',
       settings := [''location'' \<mapsto> QString ''/home/u'', ''volume'' \<mapsto> QInt 100],
       files_list := [''Music''], current_row := -1\<rparr>"

text \<open>
  A folder with two names outside ASCII, \<open>E\<close> with an acute accent (bytes C3 89) and
  \<open>a\<close> with a ring (bytes C3 A5), each followed by \<open>.mp3\<close>. \<open>latin1_lower\<close> is
  \<open>str.lower\<close> on strings of ASCII and Latin-1 characters: the capital letters of
  Latin-1 are the code points C0 to DE without D7, encoded as C3 80 to C3 9E without
  C3 97, and the small letter is 32 further.
\<close>

fun latin1_lower :: "string \<Rightarrow> string" where
  "latin1_lower [] = []"
| "latin1_lower [c] = [ascii_lower_char c]"
| "latin1_lower (c # d # cs) =
     (if c = CHR 0xC3 \<and> CHR 0x80 \<le> d \<and> d \<le> CHR 0x9E \<and> d \<noteq> CHR 0x97
      then c # char_of (of_char d + (32::nat)) # latin1_lower cs
      else ascii_lower_char c # latin1_lower (d # cs))"

definition uni_env :: env where
  "uni_env =
     \<lparr>HOME = ''/m'',
      fs_is_dir = (\<lambda>p. p = ''/m''),
      fs_listdir = (\<lambda>p.
        if p = ''/m'' then Inr [[CHR 0xC3, CHR 0x89] @ ''.mp3'', [CHR 0xC3, CHR 0xA5] @ ''.mp3'']
        else Inl OSError),
      str_lower = latin1_lower\<rparr>"

section \<open>Stop\<close>

text \<open>
  C8. Stop, from any state and so from Playing and from Paused, sends the engine the
  stop command and leaves the index at -1, nothing playing, the current time and the
  length at 0 and the title empty.
\<close>

theorem stop_resets:
  "engine (stop s) = engine s @ [Stop] \<and> index (stop s) = -1 \<and> \<not> is_playing (stop s) \<and>
   current (stop s) = 0 \<and> length' (stop s) = 0 \<and> title (stop s) = []"
  by (simp add: stop_def update_skip_buttons_def update_current_def update_length_def
      update_window_title_def int_div_1000_def Let_def)

section \<open>The directory lister\<close>

lemma sorted_key_groups:
  fixes l :: "'a \<Rightarrow> 'b::linorder"
  assumes "sorted (map (\<lambda>x. (\<not> d x, l x)) xs)"
  shows "xs = filter d xs @ filter (\<lambda>x. \<not> d x) xs"
  using assms
proof (induction xs)
  case Nil
  then show ?case by simp
next
  case (Cons x xs)
  then have rest: "xs = filter d xs @ filter (\<lambda>x. \<not> d x) xs" by simp
  show ?case
  proof (cases "d x")
    case True
    then show ?thesis using rest by simp
  next
    case False
    have "\<forall>y\<in>set xs. \<not> d y"
    proof
      fix y assume "y \<in> set xs"
      with Cons.prems have "(\<not> d x, l x) \<le> (\<not> d y, l y)" by auto
      with False show "\<not> d y" by (auto simp: less_eq_prod_def)
    qed
    then have "filter d xs = []" "filter (\<lambda>x. \<not> d x) xs = xs"
      by (auto simp: filter_empty_conv filter_id_conv)
    with False show ?thesis by simp
  qed
qed

lemma sorted_key_within:
  fixes l :: "'a \<Rightarrow> 'b::linorder"
  assumes "sorted (map (\<lambda>x. (b x, l x)) xs)" and "\<forall>x\<in>set xs. b x = c"
  shows "sorted (map l xs)"
  using assms by (induction xs) (auto simp: less_eq_prod_def)

lemma sorted_key_group:
  fixes l :: "'a \<Rightarrow> 'b::linorder"
  assumes "sorted (map (\<lambda>x. (b x, l x)) xs)"
  shows "sorted (map l (filter (\<lambda>x. b x = c) xs))"
proof -
  have "sorted (map (\<lambda>x. (b x, l x)) (filter (\<lambda>x. b x = c) xs))"
    using assms by (rule sorted_filter)
  then show ?thesis by (rule sorted_key_within [where c = c]) simp
qed

text \<open>
  C6. When the operating system lists the folder, the lister returns, and its output
  holds exactly the listed names that do not start with a dot and are a directory or
  have, lower-cased by \<open>str.lower\<close>, one of the audio extensions; the directories come
  before the other entries, and each of the two groups is in ascending order of the
  name lower-cased by \<open>str.lower\<close>.
\<close>

theorem directory_lister_output:
  assumes "fs_listdir e (str (Path loc)) = Inr names"
  shows "\<exists>out. entries_sorted e loc = Inr out \<and>
     mset out = mset (filter (\<lambda>n. \<not> startswith n ''.'' \<and>
                 (child_is_dir e (Path loc) n \<or> str_lower e (suffix n) \<in> EXTENSIONS)) names) \<and>
     out = filter (child_is_dir e (Path loc)) out @
           filter (\<lambda>n. \<not> child_is_dir e (Path loc) n) out \<and>
     sorted (map (str_lower e) (filter (child_is_dir e (Path loc)) out)) \<and>
     sorted (map (str_lower e) (filter (\<lambda>n. \<not> child_is_dir e (Path loc) n) out))"
proof -
  define d where "d = child_is_dir e (Path loc)"
  define out where "out = sort_key (sort_key' e (Path loc)) (filter (shown e (Path loc)) names)"
  have key: "sort_key' e (Path loc) = (\<lambda>n. (\<not> d n, str_lower e n))"
    by (simp add: sort_key'_def d_def fun_eq_iff)
  have srt: "sorted (map (\<lambda>n. (\<not> d n, str_lower e n)) out)"
    unfolding out_def key by simp
  have res: "entries_sorted e loc = Inr out"
    using assms by (simp add: entries_sorted_def out_def)
  have cont: "mset out = mset (filter (\<lambda>n. \<not> startswith n ''.'' \<and>
                 (d n \<or> str_lower e (suffix n) \<in> EXTENSIONS)) names)"
    by (simp add: out_def shown_def d_def)
  have grp: "out = filter d out @ filter (\<lambda>n. \<not> d n) out"
    using srt by (rule sorted_key_groups)
  have "sorted (map (str_lower e) (filter (\<lambda>n. (\<not> d n) = False) out))"
    using srt by (rule sorted_key_group)
  then have s1: "sorted (map (str_lower e) (filter d out))" by simp
  have "sorted (map (str_lower e) (filter (\<lambda>n. (\<not> d n) = True) out))"
    using srt by (rule sorted_key_group)
  then have s2: "sorted (map (str_lower e) (filter (\<lambda>n. \<not> d n) out))" by simp
  from res cont grp s1 s2 show ?thesis unfolding d_def by blast
qed

theorem directory_lister_output_witness:
  "fs_listdir ex_env (str (Path ''/home/u/Music'')) =
     Inr [''b.MP3'', ''live'', ''a.flac'', ''.hidden.mp3'', ''cover.jpg''] \<and>
   entries_sorted ex_env ''/home/u/Music'' = Inr [''live'', ''a.flac'', ''b.MP3''] \<and>
   (\<exists>out. entries_sorted ex_env ''/home/u/Music'' = Inr out \<and>
     mset out = mset (filter (\<lambda>n. \<not> startswith n ''.'' \<and>
                 (child_is_dir ex_env (Path ''/home/u/Music'') n \<or> str_lower ex_env (suffix n) \<in> EXTENSIONS))
                 [''b.MP3'', ''live'', ''a.flac'', ''.hidden.mp3'', ''cover.jpg'']) \<and>
     out = filter (child_is_dir ex_env (Path ''/home/u/Music'')) out @
           filter (\<lambda>n. \<not> child_is_dir ex_env (Path ''/home/u/Music'') n) out \<and>
     sorted (map (str_lower ex_env) (filter (child_is_dir ex_env (Path ''/home/u/Music'')) out)) \<and>
     sorted (map (str_lower ex_env) (filter (\<lambda>n. \<not> child_is_dir ex_env (Path ''/home/u/Music'') n) out)))"
proof -
  have h: "fs_listdir ex_env (str (Path ''/home/u/Music'')) =
     Inr [''b.MP3'', ''live'', ''a.flac'', ''.hidden.mp3'', ''cover.jpg'']"
    by code_simp
  have v: "entries_sorted ex_env ''/home/u/Music'' = Inr [''live'', ''a.flac'', ''b.MP3'']"
    by code_simp
  from h v directory_lister_output [OF h] show ?thesis by (intro conjI)
qed

text \<open>
  With the lower-casing of Latin-1, the name with the ring comes first, as in the player:
  the capital \<open>E\<close> with the accent is compared as the small one, which is above the
  \<open>a\<close> with the ring.
\<close>

lemma uni_listing:
  "entries_sorted uni_env ''/m'' =
     Inr [[CHR 0xC3, CHR 0xA5] @ ''.mp3'', [CHR 0xC3, CHR 0x89] @ ''.mp3'']"
  by code_simp

section \<open>Paths\<close>

lemma split_sep_nonempty: "split_sep c s \<noteq> []"
  by (induction s) auto

lemma split_sep_no_sep: "x \<in> set (split_sep c s) \<Longrightarrow> c \<notin> set x"
proof (induction s arbitrary: x)
  case Nil
  then show ?case by simp
next
  case (Cons a s)
  have ne: "split_sep c s \<noteq> []" by (rule split_sep_nonempty)
  then have hd_in: "hd (split_sep c s) \<in> set (split_sep c s)" by simp
  show ?case
  proof (cases "a = c")
    case True
    with Cons show ?thesis by auto
  next
    case False
    with Cons.prems have "x = a # hd (split_sep c s) \<or> x \<in> set (tl (split_sep c s))" by simp
    then show ?thesis
    proof
      assume "x = a # hd (split_sep c s)"
      with False Cons.IH [OF hd_in] show ?thesis by auto
    next
      assume "x \<in> set (tl (split_sep c s))"
      then have "x \<in> set (split_sep c s)" using ne by (meson list.set_sel(2))
      then show ?thesis by (rule Cons.IH)
    qed
  qed
qed

lemma split_sep_single: "c \<notin> set x \<Longrightarrow> split_sep c x = [x]"
  by (induction x) auto

lemma split_sep_append: "c \<notin> set x \<Longrightarrow> split_sep c (x @ c # rest) = x # split_sep c rest"
  by (induction x) auto

lemma Path_tail_clean:
  "x \<in> set (p_tail (Path s)) \<Longrightarrow> x \<noteq> [] \<and> x \<noteq> ''.'' \<and> CHR ''/'' \<notin> set x"
  by (auto simp: Path_def dest: split_sep_no_sep split: if_splits)

lemma take_2_parts:
  "take 1 s = [a] \<Longrightarrow> take 1 (drop 1 s) = [b] \<Longrightarrow> take 2 s = [a, b]"
proof (cases s)
  case Nil
  assume "take 1 s = [a]"
  with Nil show ?thesis by simp
next
  case (Cons x s')
  assume a: "take 1 s = [a]" and b: "take 1 (drop 1 s) = [b]"
  show ?thesis
  proof (cases s')
    case Nil
    with Cons b show ?thesis by simp
  next
    case (Cons y s'')
    with \<open>s = x # s'\<close> a b show ?thesis by simp
  qed
qed

lemma splitroot_root: "fst (splitroot s) = [] \<or> fst (splitroot s) = ''/'' \<or> fst (splitroot s) = ''//''"
proof (cases "take 1 s \<noteq> ''/''")
  case True
  then show ?thesis by (simp add: splitroot_def)
next
  case False
  then have a: "take 1 s = ''/''" by simp
  show ?thesis
  proof (cases "take 1 (drop 1 s) \<noteq> ''/'' \<or> take 1 (drop 2 s) = ''/''")
    case True
    with a show ?thesis unfolding splitroot_def by (simp del: take_eq_Nil drop_eq_Nil)
  next
    case False
    then have b: "take 1 (drop 1 s) = ''/''" by simp
    from a b have "take 2 s = ''//''" by (rule take_2_parts)
    with a False show ?thesis unfolding splitroot_def by simp
  qed
qed

lemma wf_Path: "wf_path (Path s)"
proof -
  have "p_root (Path s) = [] \<or> p_root (Path s) = ''/'' \<or> p_root (Path s) = ''//''"
    using splitroot_root [of s] by (simp add: Path_def)
  moreover have "\<forall>x\<in>set (p_tail (Path s)). x \<noteq> [] \<and> x \<noteq> ''.'' \<and> CHR ''/'' \<notin> set x"
    using Path_tail_clean by blast
  ultimately show ?thesis by (simp add: wf_path_def)
qed

lemma split_join:
  "\<forall>x\<in>set ts. x \<noteq> [] \<and> x \<noteq> ''.'' \<and> CHR ''/'' \<notin> set x \<Longrightarrow>
   filter (\<lambda>x. x \<noteq> [] \<and> x \<noteq> ''.'') (split_sep (CHR ''/'') (sep_join ts)) = ts"
proof (induction ts rule: sep_join.induct)
  case 1
  then show ?case by simp
next
  case (2 x)
  then show ?case by (simp add: split_sep_single)
next
  case (3 x y ys)
  then have "CHR ''/'' \<notin> set x" by simp
  then have "split_sep (CHR ''/'') (x @ CHR ''/'' # sep_join (y # ys)) =
             x # split_sep (CHR ''/'') (sep_join (y # ys))"
    by (rule split_sep_append)
  with 3 show ?case by simp
qed

lemma sep_join_head:
  "ts \<noteq> [] \<Longrightarrow> \<forall>x\<in>set ts. x \<noteq> [] \<and> CHR ''/'' \<notin> set x \<Longrightarrow>
   \<exists>c cs. sep_join ts = c # cs \<and> c \<noteq> CHR ''/''"
proof (induction ts rule: sep_join.induct)
  case 1
  then show ?case by simp
next
  case (2 x)
  then show ?case by (cases x) auto
next
  case (3 x y ys)
  then show ?case by (cases x) auto
qed

lemma Path_str:
  assumes "wf_path p"
  shows "Path (str p) = p"
proof -
  let ?ts = "p_tail p"
  let ?ok = "\<lambda>x::string. x \<noteq> [] \<and> x \<noteq> ''.''"
  from assms have clean: "\<forall>x\<in>set ?ts. x \<noteq> [] \<and> x \<noteq> ''.'' \<and> CHR ''/'' \<notin> set x"
    and root: "p_root p = [] \<or> p_root p = ''/'' \<or> p_root p = ''//''"
    by (auto simp: wf_path_def)
  have tl: "filter ?ok (split_sep (CHR ''/'') (sep_join ?ts)) = ?ts"
    using clean by (rule split_join)
  have hd: "?ts \<noteq> [] \<Longrightarrow> \<exists>c cs. sep_join ?ts = c # cs \<and> c \<noteq> CHR ''/''"
    using clean by (intro sep_join_head) auto
  have start: "take 1 (sep_join ?ts) \<noteq> ''/''"
  proof (cases "?ts = []")
    case True
    then show ?thesis by simp
  next
    case False
    from hd [OF False] show ?thesis by auto
  qed
  have "p_root (Path (str p)) = p_root p \<and> p_tail (Path (str p)) = ?ts"
    using root
  proof (elim disjE)
    assume r: "p_root p = []"
    show ?thesis
    proof (cases "?ts = []")
      case True
      with r show ?thesis by (simp add: str_def Path_def splitroot_def)
    next
      case False
      from hd [OF False] obtain c cs where j: "sep_join ?ts = c # cs" and c: "c \<noteq> CHR ''/''"
        by blast
      have s: "str p = c # cs" using r j by (simp add: str_def)
      have sr: "splitroot (c # cs) = ([], c # cs)" using c by (simp add: splitroot_def)
      show ?thesis unfolding s using r tl [unfolded j] by (simp add: Path_def sr)
    qed
  next
    assume r: "p_root p = ''/''"
    have s: "str p = CHR ''/'' # sep_join ?ts" using r by (simp add: str_def)
    have sr: "splitroot (CHR ''/'' # sep_join ?ts) = (''/'', sep_join ?ts)"
      using start by (simp add: splitroot_def)
    show ?thesis unfolding s using r tl by (simp add: Path_def sr)
  next
    assume r: "p_root p = ''//''"
    have s: "str p = CHR ''/'' # CHR ''/'' # sep_join ?ts" using r by (simp add: str_def)
    have sr: "splitroot (CHR ''/'' # CHR ''/'' # sep_join ?ts) = (''//'', sep_join ?ts)"
      using start by (simp add: splitroot_def)
    show ?thesis unfolding s using r tl by (simp add: Path_def sr)
  qed
  then show ?thesis by (intro pure_path.equality) simp_all
qed

lemma str_Path_str: "str (Path (str (Path x))) = str (Path x)"
  by (simp add: Path_str wf_Path)

section \<open>The handlers on the example filesystem\<close>

lemma ex_listing_music: "entries_sorted ex_env ''/home/u/Music'' = Inr [''live'', ''a.flac'', ''b.MP3'']"
  by code_simp

lemma ex_listing_live: "entries_sorted ex_env ''/home/u/Music/live'' = Inr [''x.ogg'', ''y.wav'']"
  by code_simp

lemma ex_is_dir_music: "is_dir ex_env (Path ''/home/u/Music'')"
  by code_simp

lemma ex_is_dir_live: "is_dir ex_env (Path ''/home/u/Music/live'')"
  by code_simp

lemma ex_select_live:
  "is_dir ex_env (path_div ''/home/u/Music'' ''live'')"
  "str (path_div ''/home/u/Music'' ''live'') = ''/home/u/Music/live''"
  by code_simp+

lemma ex_select_a:
  "\<not> is_dir ex_env (path_div ''/home/u/Music'' ''a.flac'')"
  "str (path_div ''/home/u/Music'' ''a.flac'') = ''/home/u/Music/a.flac''"
  "name (path_div ''/home/u/Music'' ''a.flac'') = ''a.flac''"
  by code_simp+

lemma ex_select_b:
  "\<not> is_dir ex_env (path_div ''/home/u/Music'' ''b.MP3'')"
  "str (path_div ''/home/u/Music'' ''b.MP3'') = ''/home/u/Music/b.MP3''"
  "name (path_div ''/home/u/Music'' ''b.MP3'') = ''b.MP3''"
  by code_simp+

lemma ex_home: "HOME ex_env = ''/home/u''"
  by (simp add: ex_env_def)

lemma ex_startup: "startup ex_env (Some ''/home/u/Music'') None = Inr fresh"
  by (simp add: startup_def verify_location_def ex_is_dir_music ex_listing_music
      change_volume_def save_setting_def update_window_title_def fresh_def Let_def fun_eq_iff)

lemma ex_click_last: "handle ex_env (ItemDoubleClicked 2) fresh = Inr playing_last"
  by (simp add: double_click_def fresh_def playing_last_def ex_select_b play_def
      update_window_title_def update_skip_buttons_def Let_def)

lemma ex_click_middle: "handle ex_env (ItemDoubleClicked 1) fresh = Inr playing_middle"
  by (simp add: double_click_def fresh_def playing_middle_def ex_select_a play_def
      update_window_title_def update_skip_buttons_def Let_def)

lemma ex_click_live_last: "handle ex_env (ItemDoubleClicked 0) playing_last = Inr live_after_last"
  by (simp add: double_click_def fresh_def playing_last_def live_after_last_def ex_select_live
      change_location_def update_files_def verify_location_def save_setting_def
      ex_is_dir_live ex_listing_live Let_def fun_eq_iff)

lemma ex_click_live_middle: "handle ex_env (ItemDoubleClicked 0) playing_middle = Inr live_after_middle"
  by (simp add: double_click_def fresh_def playing_middle_def live_after_middle_def ex_select_live
      change_location_def update_files_def verify_location_def save_setting_def
      ex_is_dir_live ex_listing_live Let_def fun_eq_iff)

lemma ex_listing_home: "entries_sorted ex_env ''/home/u'' = Inr [''Music'']"
  by code_simp

lemma ex_is_dir_home: "is_dir ex_env (Path ''/home/u'')"
  by code_simp

lemma ex_click_home_last: "handle ex_env HomeClicked playing_last = Inr home_after_last"
  by (simp add: home_def ex_home change_location_def update_files_def verify_location_def
      save_setting_def ex_is_dir_home ex_listing_home playing_last_def fresh_def
      home_after_last_def Let_def fun_eq_iff)

lemma locked_is_dir_music: "is_dir locked_env (Path ''/home/u/Music'')"
  by code_simp

lemma locked_listing_music: "entries_sorted locked_env ''/home/u/Music'' = Inl OSError"
  by code_simp

section \<open>The stored location\<close>

text \<open>
  C7, as the code has it. When the location is not a directory, \<open>verify_location\<close>
  replaces it by the home directory and writes the home directory to the settings,
  changing nothing else; when it is a directory, the state, and so the settings, stay
  as they are, whether the directory can be listed or not. At start-up a stored
  location that is not a directory gives the home directory, persisted and listed; a
  stored location that is a directory and cannot be listed stays, and start-up and the
  listing of \<open>update_files\<close> end with the error.
\<close>

theorem verify_location_fallback:
  "(\<not> is_dir e (Path (location s)) \<longrightarrow>
      verify_location e s =
        s\<lparr>location := HOME e, settings := (settings s)(''location'' \<mapsto> QString (HOME e))\<rparr>) \<and>
   (is_dir e (Path (location s)) \<longrightarrow> verify_location e s = s) \<and>
   (\<not> is_dir e (Path l) \<and> entries_sorted e (HOME e) = Inr files \<longrightarrow>
      (\<exists>s'. startup e (Some l) v = Inr s' \<and> location s' = HOME e \<and>
         settings s' ''location'' = Some (QString (HOME e)) \<and> files_list s' = files)) \<and>
   (is_dir e (Path l) \<and> entries_sorted e l = Inl err \<longrightarrow>
      startup e (Some l) v = Inl err \<and> update_files e (s\<lparr>location := l\<rparr>) = Inl err)"
proof (intro conjI impI)
  assume "\<not> is_dir e (Path (location s))"
  then show "verify_location e s =
      s\<lparr>location := HOME e, settings := (settings s)(''location'' \<mapsto> QString (HOME e))\<rparr>"
    by (simp add: verify_location_def save_setting_def)
next
  assume "is_dir e (Path (location s))"
  then show "verify_location e s = s" by (simp add: verify_location_def)
next
  assume "\<not> is_dir e (Path l) \<and> entries_sorted e (HOME e) = Inr files"
  then show "\<exists>s'. startup e (Some l) v = Inr s' \<and> location s' = HOME e \<and>
         settings s' ''location'' = Some (QString (HOME e)) \<and> files_list s' = files"
    by (simp add: startup_def verify_location_def save_setting_def change_volume_def
        update_window_title_def Let_def)
next
  assume a: "is_dir e (Path l) \<and> entries_sorted e l = Inl err"
  then show "startup e (Some l) v = Inl err"
    by (simp add: startup_def verify_location_def Let_def)
  from a show "update_files e (s\<lparr>location := l\<rparr>) = Inl err"
    by (simp add: update_files_def verify_location_def Let_def)
qed

theorem verify_location_fallback_witness:
  "\<not> is_dir ex_env (Path (location (fresh\<lparr>location := ''/media/usb''\<rparr>))) \<and>
   location (verify_location ex_env (fresh\<lparr>location := ''/media/usb''\<rparr>)) = ''/home/u'' \<and>
   settings (verify_location ex_env (fresh\<lparr>location := ''/media/usb''\<rparr>)) ''location'' =
     Some (QString ''/home/u'') \<and>
   is_dir ex_env (Path (location fresh)) \<and> verify_location ex_env fresh = fresh \<and>
   \<not> is_dir ex_env (Path ''/media/usb'') \<and>
   entries_sorted ex_env (HOME ex_env) = Inr [''Music''] \<and>
   (\<exists>s'. startup ex_env (Some ''/media/usb'') None = Inr s' \<and> location s' = ''/home/u'' \<and>
      settings s' ''location'' = Some (QString ''/home/u'') \<and> files_list s' = [''Music'']) \<and>
   is_dir locked_env (Path ''/home/u/Music'') \<and>
   entries_sorted locked_env ''/home/u/Music'' = Inl OSError \<and>
   startup locked_env (Some ''/home/u/Music'') None = Inl OSError"
proof -
  have gone: "\<not> is_dir ex_env (Path (location (fresh\<lparr>location := ''/media/usb''\<rparr>)))"
    unfolding select_convs update_convs by code_simp
  have gone': "\<not> is_dir ex_env (Path ''/media/usb'')"
    by code_simp
  have there: "is_dir ex_env (Path (location fresh))"
    by (simp add: fresh_def ex_is_dir_music)
  have lst: "entries_sorted ex_env (HOME ex_env) = Inr [''Music'']"
    by (simp add: ex_home ex_listing_home)
  note a = verify_location_fallback [of ex_env "fresh\<lparr>location := ''/media/usb''\<rparr>"]
  note b = verify_location_fallback [of ex_env fresh "''/media/usb''" "[''Music'']" None]
  note c = verify_location_fallback [of locked_env fresh "''/home/u/Music''" _ _ OSError]
  from a gone have 1: "location (verify_location ex_env (fresh\<lparr>location := ''/media/usb''\<rparr>)) =
      ''/home/u''"
    and 2: "settings (verify_location ex_env (fresh\<lparr>location := ''/media/usb''\<rparr>)) ''location'' =
      Some (QString ''/home/u'')"
    by (simp_all add: ex_home)
  from b there have 3: "verify_location ex_env fresh = fresh" by blast
  from b gone' lst have 4: "\<exists>s'. startup ex_env (Some ''/media/usb'') None = Inr s' \<and>
      location s' = ''/home/u'' \<and> settings s' ''location'' = Some (QString ''/home/u'') \<and>
      files_list s' = [''Music'']"
    by (simp add: ex_home)
  from c locked_is_dir_music locked_listing_music
  have 5: "startup locked_env (Some ''/home/u/Music'') None = Inl OSError" by blast
  from gone 1 2 there 3 gone' lst 4 locked_is_dir_music locked_listing_music 5
  show ?thesis by (intro conjI)
qed

text \<open>
  The claim as the specification states it fails: a music folder that is a directory
  and cannot be listed is not replaced by the home directory, and start-up ends with
  the error of the listing.
\<close>

theorem unlistable_location_stays:
  "is_dir locked_env (Path (location fresh)) \<and>
   fs_listdir locked_env (str (Path (location fresh))) = Inl OSError \<and>
   verify_location locked_env fresh = fresh \<and>
   location (verify_location locked_env fresh) \<noteq> HOME locked_env \<and>
   startup locked_env (Some ''/home/u/Music'') None = Inl OSError"
proof -
  have d: "is_dir locked_env (Path (location fresh))"
    by (simp add: fresh_def locked_is_dir_music)
  have l: "fs_listdir locked_env (str (Path (location fresh))) = Inl OSError"
    unfolding fresh_def select_convs by code_simp
  have v: "verify_location locked_env fresh = fresh"
    using d by (simp add: verify_location_def)
  have h: "location fresh \<noteq> HOME locked_env"
    by (simp add: fresh_def locked_env_def ex_env_def)
  have s: "startup locked_env (Some ''/home/u/Music'') None = Inl OSError"
    by (simp add: startup_def verify_location_def locked_is_dir_music locked_listing_music
        Let_def)
  from d l v h s show ?thesis by simp
qed

section \<open>Volume\<close>

text \<open>
  C4, as the code has it. \<open>change_volume\<close> stores the new volume, sends it to the audio
  output and writes it to the settings as it is; only the volume slider keeps it between
  0 and 100. The persisted volume is the clamped one exactly for a volume between 0
  and 100.
\<close>

theorem change_volume_persists:
  "volume (change_volume v s) = v \<and>
   settings (change_volume v s) ''volume'' = Some (QInt v) \<and>
   engine (change_volume v s) = engine s @ [SetVolume v] \<and>
   volume_bar (change_volume v s) = max 0 (min 100 v) \<and>
   ((settings (change_volume v s) ''volume'' = Some (QInt (max 0 (min 100 v)))) = (0 \<le> v \<and> v \<le> 100))"
  by (auto simp: change_volume_def save_setting_def)

text \<open>The claim as the specification states it fails: 150 is persisted as 150, -5 as -5.\<close>

theorem change_volume_not_clamped:
  "settings (change_volume 150 fresh) ''volume'' = Some (QInt 150) \<and>
   settings (change_volume 150 fresh) ''volume'' \<noteq> Some (QInt 100) \<and>
   settings (change_volume (- 5) fresh) ''volume'' = Some (QInt (- 5)) \<and>
   settings (change_volume (- 5) fresh) ''volume'' \<noteq> Some (QInt 0)"
  by (simp add: change_volume_def save_setting_def)

section \<open>Play and pause\<close>

text \<open>
  C5. After start-up nothing is loaded, and the play/pause button is enabled: a click
  on it sends the engine the play command and sets \<open>is_playing\<close>, with the index
  still at -1.
\<close>

theorem play_pause_at_startup:
  "startup ex_env (Some ''/home/u/Music'') None = Inr fresh \<and>
   index fresh = -1 \<and> \<not> is_playing fresh \<and>
   handle ex_env PlayPauseClicked fresh =
     Inr (fresh\<lparr>engine := engine fresh @ [Play], is_playing := True\<rparr>) \<and>
   index (fresh\<lparr>engine := engine fresh @ [Play], is_playing := True\<rparr>) = -1 \<and>
   is_playing (fresh\<lparr>engine := engine fresh @ [Play], is_playing := True\<rparr>)"
proof (intro conjI)
  show "startup ex_env (Some ''/home/u/Music'') None = Inr fresh"
    by (rule ex_startup)
qed (simp_all add: fresh_def play_pause_def play_def)

section \<open>End of media\<close>

text \<open>
  C2, as the code has it. On the end-of-media status the controller does what the
  skip-forward button does, whatever the state; any other status changes nothing. When
  the index is at the last entry or beyond, that is nothing: the state stays as it is,
  still playing and with its index, neither stopped nor back at the first entry.
\<close>

theorem finished_is_next:
  "finished e EndOfMedia s = next' e s \<and>
   finished e OtherStatus s = Inr s \<and>
   (int (length (files_list s)) - 1 \<le> index s \<longrightarrow> finished e EndOfMedia s = Inr s)"
  by (simp add: finished_def next'_def)

theorem finished_is_next_witness:
  "int (length (files_list playing_last)) - 1 \<le> index playing_last \<and>
   finished ex_env EndOfMedia playing_last = next' ex_env playing_last \<and>
   finished ex_env EndOfMedia playing_last = Inr playing_last"
proof -
  have "int (length (files_list playing_last)) - 1 \<le> index playing_last"
    by (simp add: playing_last_def fresh_def)
  with finished_is_next [of ex_env playing_last] show ?thesis by blast
qed

text \<open>
  The claim as the specification states it fails: after a double click on the last
  entry, the end of the media leaves the player playing, with the index at that entry.
\<close>

theorem finished_on_last_not_stopped:
  "handle ex_env (ItemDoubleClicked 2) fresh = Inr playing_last \<and>
   index playing_last = int (length (files_list playing_last)) - 1 \<and>
   is_playing playing_last \<and>
   handle ex_env (MediaStatusChanged EndOfMedia) playing_last = Inr playing_last \<and>
   \<not> (index playing_last = -1 \<and> \<not> is_playing playing_last)"
proof (intro conjI)
  show "handle ex_env (ItemDoubleClicked 2) fresh = Inr playing_last"
    by (rule ex_click_last)
qed (simp_all add: playing_last_def fresh_def finished_def next'_def)

section \<open>Selecting a folder\<close>

lemma is_dir_str_path_div:
  "is_dir e (Path (str (path_div a b))) = is_dir e (path_div a b)"
  by (simp add: is_dir_def path_div_def str_Path_str)

text \<open>
  C3, as the code has it. A double click on an entry that is a directory sets the
  location to the path of the entry, writes it to the settings and lists the new
  folder (the exception of a failed listing leaves the handler); every other field,
  and so the index, \<open>is_playing\<close>, the title and the times, stays as it was.
\<close>

theorem select_directory:
  assumes "is_dir e (path_div (location s) (files_list s ! r))"
  shows "double_click e (Some r) s =
     (case entries_sorted e (str (path_div (location s) (files_list s ! r))) of
        Inl err \<Rightarrow> Inl err
      | Inr out \<Rightarrow>
          Inr (s\<lparr>location := str (path_div (location s) (files_list s ! r)),
                 settings := (settings s)(''location'' \<mapsto>
                   QString (str (path_div (location s) (files_list s ! r)))),
                 files_list := out, current_row := -1\<rparr>))"
  using assms
  by (simp add: double_click_def change_location_def update_files_def verify_location_def
      save_setting_def is_dir_str_path_div Let_def split: sum.splits)

theorem select_directory_witness:
  "is_dir ex_env (path_div (location playing_last) (files_list playing_last ! 0)) \<and>
   double_click ex_env (Some 0) playing_last = Inr live_after_last \<and>
   location live_after_last = ''/home/u/Music/live'' \<and>
   files_list live_after_last = [''x.ogg'', ''y.wav''] \<and>
   index live_after_last = index playing_last \<and>
   is_playing live_after_last = is_playing playing_last"
proof -
  have d: "is_dir ex_env (path_div (location playing_last) (files_list playing_last ! 0))"
    by (simp add: playing_last_def fresh_def ex_select_live)
  have p: "str (path_div (location playing_last) (files_list playing_last ! 0)) =
           ''/home/u/Music/live''"
    by (simp add: playing_last_def fresh_def ex_select_live)
  have "double_click ex_env (Some 0) playing_last = Inr live_after_last"
    using select_directory [OF d] unfolding p
    by (simp add: ex_listing_live live_after_last_def playing_last_def fresh_def fun_eq_iff)
  with d show ?thesis by (simp add: live_after_last_def)
qed

text \<open>
  The claim as the specification states it fails: a double click on the folder \<open>live\<close>
  while \<open>b.MP3\<close> plays leaves the player playing with its index.
\<close>

theorem select_directory_keeps_playing:
  "handle ex_env (ItemDoubleClicked 2) fresh = Inr playing_last \<and>
   is_dir ex_env (path_div (location playing_last) (files_list playing_last ! 0)) \<and>
   handle ex_env (ItemDoubleClicked 0) playing_last = Inr live_after_last \<and>
   \<not> (index live_after_last = -1 \<and> \<not> is_playing live_after_last)"
proof (intro conjI)
  show "handle ex_env (ItemDoubleClicked 2) fresh = Inr playing_last"
    by (rule ex_click_last)
  show "handle ex_env (ItemDoubleClicked 0) playing_last = Inr live_after_last"
    by (rule ex_click_live_last)
qed (simp_all add: live_after_last_def playing_last_def fresh_def ex_select_live)

section \<open>Up from the root\<close>

text \<open>
  C10. When the location is the root, its parent is the root again: the up button
  leaves the location at the root, writes it to the settings and lists the root anew,
  and a second click changes nothing more.
\<close>

theorem go_up_at_root:
  assumes "Path (location s) = \<lparr>p_root = ''/'', p_tail = []\<rparr>"
    and "fs_is_dir e ''/''"
    and "entries_sorted e ''/'' = Inr out"
  shows "parent (Path (location s)) = Path (location s) \<and>
     go_up e s =
       Inr (s\<lparr>location := ''/'', settings := (settings s)(''location'' \<mapsto> QString ''/''),
              files_list := out, current_row := -1\<rparr>) \<and>
     go_up e (s\<lparr>location := ''/'', settings := (settings s)(''location'' \<mapsto> QString ''/''),
                files_list := out, current_row := -1\<rparr>) =
       Inr (s\<lparr>location := ''/'', settings := (settings s)(''location'' \<mapsto> QString ''/''),
              files_list := out, current_row := -1\<rparr>)"
proof -
  have root: "Path ''/'' = \<lparr>p_root = ''/'', p_tail = []\<rparr>"
    by (simp add: Path_def splitroot_def)
  have s: "str \<lparr>p_root = ''/'', p_tail = []\<rparr> = ''/''"
    by (simp add: str_def)
  have d: "is_dir e (Path ''/'')"
    using assms(2) by (simp add: is_dir_def root s)
  have up: "\<And>t. Path (location t) = \<lparr>p_root = ''/'', p_tail = []\<rparr> \<Longrightarrow>
      go_up e t =
        Inr (t\<lparr>location := ''/'', settings := (settings t)(''location'' \<mapsto> QString ''/''),
               files_list := out, current_row := -1\<rparr>)"
    using d assms(3)
    by (simp add: go_up_def parent_def s change_location_def update_files_def
        verify_location_def save_setting_def Let_def)
  have p: "parent (Path (location s)) = Path (location s)"
    using assms(1) by (simp add: parent_def)
  from up [OF assms(1)] up [of "s\<lparr>location := ''/'',
      settings := (settings s)(''location'' \<mapsto> QString ''/''),
      files_list := out, current_row := -1\<rparr>"] p root
  show ?thesis by simp
qed

theorem go_up_at_root_witness:
  "Path (location (fresh\<lparr>location := ''/''\<rparr>)) = \<lparr>p_root = ''/'', p_tail = []\<rparr> \<and>
   fs_is_dir ex_env ''/'' \<and> entries_sorted ex_env ''/'' = Inr [''home''] \<and>
   go_up ex_env (fresh\<lparr>location := ''/''\<rparr>) =
     Inr (fresh\<lparr>location := ''/'',
            settings := (settings (fresh\<lparr>location := ''/''\<rparr>))(''location'' \<mapsto> QString ''/''),
            files_list := [''home''], current_row := -1\<rparr>)"
proof -
  have a: "Path (location (fresh\<lparr>location := ''/''\<rparr>)) = \<lparr>p_root = ''/'', p_tail = []\<rparr>"
    by (simp add: Path_def splitroot_def)
  have b: "fs_is_dir ex_env ''/''"
    by (simp add: ex_env_def)
  have c: "entries_sorted ex_env ''/'' = Inr [''home'']"
    by code_simp
  from a b c go_up_at_root [OF a b c] show ?thesis by simp
qed

section \<open>What the handlers leave as it is\<close>

lemma update_skip_buttons_index [simp]: "index (update_skip_buttons s) = index s"
  by (simp add: update_skip_buttons_def Let_def)

lemma update_skip_buttons_files [simp]: "files_list (update_skip_buttons s) = files_list s"
  by (simp add: update_skip_buttons_def Let_def)

lemma update_skip_buttons_back:
  "back_enabled (update_skip_buttons s) = (index s \<noteq> -1 \<and> 0 < index s)"
  by (simp add: update_skip_buttons_def Let_def)

lemma update_skip_buttons_forward:
  "forward_enabled (update_skip_buttons s) =
     (index s \<noteq> -1 \<and> index s < int (length (files_list s)) - 1)"
  by (simp add: update_skip_buttons_def Let_def)

lemma verify_location_current_row:
  "verify_location e (s\<lparr>current_row := c\<rparr>) = (verify_location e s)\<lparr>current_row := c\<rparr>"
  by (simp add: verify_location_def save_setting_def)

lemma update_files_current_row: "update_files e (s\<lparr>current_row := c\<rparr>) = update_files e s"
  by (simp add: update_files_def verify_location_current_row Let_def split: sum.split)

lemma change_location_current_row:
  "change_location e (s\<lparr>current_row := c\<rparr>) = change_location e s"
proof -
  have "save_setting ''location'' (QString (location (s\<lparr>current_row := c\<rparr>))) (s\<lparr>current_row := c\<rparr>) =
        (save_setting ''location'' (QString (location s)) s)\<lparr>current_row := c\<rparr>"
    by (simp add: save_setting_def)
  then show ?thesis by (simp only: change_location_def update_files_current_row)
qed


lemma double_click_None: "double_click e None s = Inl AttributeError"
  by (simp add: double_click_def)

lemma double_click_dir:
  "is_dir e (path_div (location s) (files_list s ! r)) \<Longrightarrow>
   double_click e (Some r) s =
     change_location e (s\<lparr>location := str (path_div (location s) (files_list s ! r))\<rparr>)"
  by (simp add: double_click_def Let_def)

lemma double_click_not_dir:
  "\<not> is_dir e (path_div (location s) (files_list s ! r)) \<Longrightarrow>
   double_click e (Some r) s =
     Inr (update_skip_buttons (play
       ((update_window_title
          (s\<lparr>engine := engine s @ [SetSource (str (path_div (location s) (files_list s ! r)))],
             title := name (path_div (location s) (files_list s ! r))\<rparr>))
        \<lparr>play_pause_enabled := True, stop_enabled := True,
         current_row := int r, index := int r\<rparr>)))"
  by (simp add: double_click_def Let_def)

lemma update_window_title_current_row:
  "update_window_title (s\<lparr>current_row := c\<rparr>) = (update_window_title s)\<lparr>current_row := c\<rparr>"
  by (simp add: update_window_title_def Let_def split: option.split)

lemma double_click_current_row:
  "double_click e item (s\<lparr>current_row := c\<rparr>) = double_click e item s"
proof (cases item)
  case None
  then show ?thesis by (simp add: double_click_None)
next
  case (Some r)
  show ?thesis
  proof (cases "is_dir e (path_div (location s) (files_list s ! r))")
    case True
    let ?L = "str (path_div (location s) (files_list s ! r))"
    have sw: "s\<lparr>current_row := c, location := ?L\<rparr> = s\<lparr>location := ?L, current_row := c\<rparr>"
      by simp
    have "double_click e (Some r) (s\<lparr>current_row := c\<rparr>) =
          change_location e (s\<lparr>current_row := c, location := ?L\<rparr>)"
      using True by (simp add: double_click_dir)
    also have "\<dots> = change_location e (s\<lparr>location := ?L\<rparr>)"
      by (subst sw) (rule change_location_current_row)
    also have "\<dots> = double_click e (Some r) s"
      using True by (simp add: double_click_dir)
    finally show ?thesis using Some by simp
  next
    case False
    have sw: "\<And>E T. s\<lparr>current_row := c, engine := E, title := T\<rparr> =
                 s\<lparr>engine := E, title := T, current_row := c\<rparr>"
      by simp
    from False Some show ?thesis
      by (simp add: double_click_not_dir)
        (simp only: sw update_window_title_current_row, simp)
  qed
qed

lemma update_window_title_fields [simp]:
  "index (update_window_title s) = index s"
  "files_list (update_window_title s) = files_list s"
  "is_playing (update_window_title s) = is_playing s"
  "play_pause_enabled (update_window_title s) = play_pause_enabled s"
  by (simp_all add: update_window_title_def Let_def)

lemma update_skip_buttons_fields [simp]:
  "is_playing (update_skip_buttons s) = is_playing s"
  "play_pause_enabled (update_skip_buttons s) = play_pause_enabled s"
  by (simp_all add: update_skip_buttons_def Let_def)

lemma verify_location_fields [simp]:
  "index (verify_location e s) = index s"
  "is_playing (verify_location e s) = is_playing s"
  "play_pause_enabled (verify_location e s) = play_pause_enabled s"
  by (simp_all add: verify_location_def save_setting_def)

lemma update_files_fields:
  assumes "update_files e s = Inr s'"
  shows "index s' = index s \<and> is_playing s' = is_playing s \<and>
         play_pause_enabled s' = play_pause_enabled s"
  using assms by (auto simp: update_files_def Let_def split: sum.splits)

lemma change_location_fields:
  assumes "change_location e s = Inr s'"
  shows "index s' = index s \<and> is_playing s' = is_playing s \<and>
         play_pause_enabled s' = play_pause_enabled s"
  using update_files_fields [OF assms [unfolded change_location_def]]
  by (simp add: save_setting_def)

lemma double_click_file:
  assumes "\<not> is_dir e (path_div (location s) (files_list s ! r))"
  shows "\<exists>s'. double_click e (Some r) s = Inr s' \<and> index s' = int r \<and>
     files_list s' = files_list s \<and> is_playing s' \<and> play_pause_enabled s' \<and>
     back_enabled s' = (0 \<le> index s' - 1) \<and>
     forward_enabled s' = (index s' + 1 < int (length (files_list s')))"
proof -
  let ?s' = "update_skip_buttons (play
       ((update_window_title
          (s\<lparr>engine := engine s @ [SetSource (str (path_div (location s) (files_list s ! r)))],
             title := name (path_div (location s) (files_list s ! r))\<rparr>))
        \<lparr>play_pause_enabled := True, stop_enabled := True,
         current_row := int r, index := int r\<rparr>))"
  have "double_click e (Some r) s = Inr ?s'"
    using assms by (rule double_click_not_dir)
  moreover have "index ?s' = int r" by (simp add: play_def)
  moreover have "files_list ?s' = files_list s" by (simp add: play_def)
  moreover have "is_playing ?s'" by (simp add: play_def)
  moreover have "play_pause_enabled ?s'" by (simp add: play_def)
  moreover have "back_enabled ?s' = (0 \<le> index ?s' - 1)"
    by (auto simp: update_skip_buttons_back play_def)
  moreover have "forward_enabled ?s' = (index ?s' + 1 < int (length (files_list ?s')))"
    by (auto simp: update_skip_buttons_forward play_def)
  ultimately show ?thesis by blast
qed

lemma skip_target:
  assumes "double_click e (current_item (set_current_row r s)) (set_current_row r s) = Inr s'"
  shows "0 \<le> r \<and> r < int (length (files_list s)) \<and> double_click e (Some (nat r)) s = Inr s'"
proof (cases "0 \<le> r \<and> r < int (length (files_list s))")
  case True
  with assms show ?thesis
    by (simp add: set_current_row_def current_item_def double_click_current_row)
next
  case False
  then have "current_item (set_current_row r s) = None"
    by (auto simp: set_current_row_def current_item_def)
  with assms show ?thesis by (simp add: double_click_None)
qed

section \<open>Skipping\<close>

lemma set_current_row_in_range:
  "0 \<le> r \<Longrightarrow> r < int (length (files_list s)) \<Longrightarrow> set_current_row r s = s\<lparr>current_row := r\<rparr>"
  by (simp add: set_current_row_def)

lemma current_item_row: "0 \<le> r \<Longrightarrow> current_item (s\<lparr>current_row := r\<rparr>) = Some (nat r)"
  by (simp add: current_item_def)

text \<open>
  C9, as the code has it. With an index of -1 or above, the skip-forward button's
  handler is a double click on the entry after the index when the list has one and
  does nothing otherwise. With an index whose predecessor is below the length of the
  list, the skip-back button's handler is a double click on the entry before the index
  when there is one and does nothing otherwise. A double click on an entry that is not
  a directory leaves the two buttons enabled exactly when there is such an entry in the
  list as it is then.
\<close>

theorem skip_is_double_click:
  "(-1 \<le> index s \<longrightarrow>
      next' e s =
        (if index s + 1 < int (length (files_list s))
         then double_click e (Some (nat (index s + 1))) s else Inr s)) \<and>
   (index s - 1 < int (length (files_list s)) \<longrightarrow>
      previous e s =
        (if 0 \<le> index s - 1 then double_click e (Some (nat (index s - 1))) s else Inr s)) \<and>
   (\<forall>r. \<not> is_dir e (path_div (location s) (files_list s ! r)) \<longrightarrow>
      (\<exists>s'. double_click e (Some r) s = Inr s' \<and> index s' = int r \<and>
         files_list s' = files_list s \<and>
         back_enabled s' = (0 \<le> index s' - 1) \<and>
         forward_enabled s' = (index s' + 1 < int (length (files_list s')))))"
proof (intro conjI allI impI)
  assume a: "-1 \<le> index s"
  show "next' e s =
       (if index s + 1 < int (length (files_list s))
        then double_click e (Some (nat (index s + 1))) s else Inr s)"
  proof (cases "index s + 1 < int (length (files_list s))")
    case True
    with a show ?thesis
      by (simp add: next'_def set_current_row_in_range current_item_row double_click_current_row)
  next
    case False
    then show ?thesis by (simp add: next'_def)
  qed
next
  assume a: "index s - 1 < int (length (files_list s))"
  show "previous e s =
       (if 0 \<le> index s - 1 then double_click e (Some (nat (index s - 1))) s else Inr s)"
  proof (cases "0 \<le> index s - 1")
    case True
    with a show ?thesis
      by (simp add: previous_def set_current_row_in_range current_item_row
          double_click_current_row)
  next
    case False
    then show ?thesis by (simp add: previous_def)
  qed
next
  fix r
  assume "\<not> is_dir e (path_div (location s) (files_list s ! r))"
  from double_click_file [OF this]
  show "\<exists>s'. double_click e (Some r) s = Inr s' \<and> index s' = int r \<and>
           files_list s' = files_list s \<and>
           back_enabled s' = (0 \<le> index s' - 1) \<and>
           forward_enabled s' = (index s' + 1 < int (length (files_list s')))"
    by blast
qed

theorem skip_is_double_click_witness:
  "-1 \<le> index playing_middle \<and>
   index playing_middle - 1 < int (length (files_list playing_middle)) \<and>
   next' ex_env playing_middle = double_click ex_env (Some 2) playing_middle \<and>
   previous ex_env playing_middle = double_click ex_env (Some 0) playing_middle \<and>
   \<not> is_dir ex_env (path_div (location playing_middle) (files_list playing_middle ! 2)) \<and>
   (\<exists>s'. double_click ex_env (Some 2) playing_middle = Inr s' \<and> index s' = 2 \<and>
      back_enabled s' \<and> \<not> forward_enabled s')"
proof -
  have a: "-1 \<le> index playing_middle" by (simp add: playing_middle_def fresh_def)
  have b: "index playing_middle - 1 < int (length (files_list playing_middle))"
    by (simp add: playing_middle_def fresh_def)
  have i: "index playing_middle = 1" "length (files_list playing_middle) = 3"
    by (simp_all add: playing_middle_def fresh_def)
  have f: "\<not> is_dir ex_env (path_div (location playing_middle) (files_list playing_middle ! 2))"
    by (simp add: playing_middle_def fresh_def ex_select_b)
  note t = skip_is_double_click [of playing_middle ex_env]
  from t a have n: "next' ex_env playing_middle = double_click ex_env (Some 2) playing_middle"
    by (simp add: i)
  from t b have p: "previous ex_env playing_middle = double_click ex_env (Some 0) playing_middle"
    by (simp add: i)
  from t f obtain s' where "double_click ex_env (Some 2) playing_middle = Inr s'"
    "index s' = int 2" "files_list s' = files_list playing_middle"
    "back_enabled s' = (0 \<le> index s' - 1)"
    "forward_enabled s' = (index s' + 1 < int (length (files_list s')))"
    by blast
  then have "\<exists>s'. double_click ex_env (Some 2) playing_middle = Inr s' \<and> index s' = 2 \<and>
      back_enabled s' \<and> \<not> forward_enabled s'"
    by (simp add: i)
  with a b n p f show ?thesis by (intro conjI)
qed

text \<open>
  The claim as the specification states it fails. With \<open>a.flac\<close> playing, a double
  click on the folder \<open>live\<close> lists two entries and leaves the index at the second: the
  skip-forward button is still enabled, and a click on it does nothing. With \<open>b.MP3\<close>
  playing at index 2, the home button lists one entry: the skip-back button is still
  enabled, and a click on it ends with an error, not with a state.
\<close>

theorem forward_enabled_yet_no_move:
  "startup ex_env (Some ''/home/u/Music'') None = Inr fresh \<and>
   run ex_env [ItemDoubleClicked 1, ItemDoubleClicked 0] fresh = Inr live_after_middle \<and>
   0 \<le> index live_after_middle \<and>
   index live_after_middle < int (length (files_list live_after_middle)) \<and>
   forward_enabled live_after_middle \<and>
   handle ex_env ForwardClicked live_after_middle = Inr live_after_middle \<and>
   run ex_env [ItemDoubleClicked 2, HomeClicked] fresh = Inr home_after_last \<and>
   back_enabled home_after_last \<and>
   handle ex_env BackClicked home_after_last = Inl AttributeError"
proof (intro conjI)
  show "startup ex_env (Some ''/home/u/Music'') None = Inr fresh"
    by (rule ex_startup)
  show "run ex_env [ItemDoubleClicked 1, ItemDoubleClicked 0] fresh = Inr live_after_middle"
    by (simp only: run.simps ex_click_middle ex_click_live_middle sum.case)
  show "run ex_env [ItemDoubleClicked 2, HomeClicked] fresh = Inr home_after_last"
    by (simp only: run.simps ex_click_last ex_click_home_last sum.case)
  show "handle ex_env BackClicked home_after_last = Inl AttributeError"
    by (simp add: home_after_last_def playing_last_def fresh_def previous_def
        set_current_row_def current_item_def double_click_None)
qed (simp_all add: live_after_middle_def playing_middle_def home_after_last_def
    playing_last_def fresh_def next'_def)

section \<open>The index and the play flag\<close>

lemma stop_fields:
  "index (stop s) = -1" "\<not> is_playing (stop s)" "\<not> play_pause_enabled (stop s)"
  by (simp_all add: stop_def update_current_def update_length_def)

text \<open>
  What a double click gives: on a directory the index, the play flag and the play/pause
  button stay; on another entry the index is its row, the player plays and the button
  is enabled.
\<close>

lemma double_click_outcome:
  assumes dc: "double_click e (Some r) s = Inr s'"
  shows "(is_dir e (path_div (location s) (files_list s ! r)) \<and> index s' = index s \<and>
          is_playing s' = is_playing s \<and> play_pause_enabled s' = play_pause_enabled s) \<or>
         (\<not> is_dir e (path_div (location s) (files_list s ! r)) \<and> index s' = int r \<and>
          is_playing s' \<and> play_pause_enabled s')"
proof (cases "is_dir e (path_div (location s) (files_list s ! r))")
  case True
  with dc have "change_location e
      (s\<lparr>location := str (path_div (location s) (files_list s ! r))\<rparr>) = Inr s'"
    by (simp add: double_click_dir)
  from change_location_fields [OF this] True show ?thesis by simp
next
  case False
  from double_click_file [OF False] dc False show ?thesis by auto
qed

text \<open>
  What a handler that returns gives: the three fields as they were; or a row of the list
  as the index, playing, with the button enabled; or the stopped player; or, after a
  click on the enabled play/pause button, the index and the button as they were.
\<close>

lemma skip_outcome:
  assumes "double_click e (current_item (set_current_row r s)) (set_current_row r s) = Inr s'"
  shows "(index s' = index s \<and> is_playing s' = is_playing s \<and>
          play_pause_enabled s' = play_pause_enabled s) \<or>
         (\<exists>k. k < length (files_list s) \<and> index s' = int k \<and> is_playing s' \<and>
            play_pause_enabled s')"
proof -
  from skip_target [OF assms]
  have k: "nat r < length (files_list s)"
    and dc: "double_click e (Some (nat r)) s = Inr s'"
    by auto
  from double_click_outcome [OF dc] k show ?thesis by blast
qed

lemma handle_outcome:
  assumes h: "handle e ev s = Inr s'"
  shows "(index s' = index s \<and> is_playing s' = is_playing s \<and>
          play_pause_enabled s' = play_pause_enabled s) \<or>
         (\<exists>k. k < length (files_list s) \<and> index s' = int k \<and> is_playing s' \<and>
            play_pause_enabled s') \<or>
         (index s' = -1 \<and> \<not> is_playing s' \<and> \<not> play_pause_enabled s') \<or>
         (index s' = index s \<and> play_pause_enabled s' = play_pause_enabled s \<and>
          play_pause_enabled s)"
proof (cases ev)
  case (ItemDoubleClicked r)
  show ?thesis
  proof (cases "r < length (files_list s)")
    case True
    with h ItemDoubleClicked have "double_click e (Some r) s = Inr s'" by simp
    from double_click_outcome [OF this] True show ?thesis by blast
  next
    case False
    with h ItemDoubleClicked show ?thesis by simp
  qed
next
  case PlayPauseClicked
  with h have "s' = (if play_pause_enabled s then play_pause s else s)" by simp
  then show ?thesis by (auto simp: play_pause_def play_def)
next
  case StopClicked
  with h have "s' = (if stop_enabled s then stop s else s)" by simp
  then show ?thesis by (auto simp: stop_fields)
next
  case BackClicked
  show ?thesis
  proof (cases "back_enabled s \<and> index s > 0")
    case True
    with h BackClicked have "double_click e (current_item (set_current_row (index s - 1) s))
        (set_current_row (index s - 1) s) = Inr s'"
      by (simp add: previous_def Let_def)
    from skip_outcome [OF this] show ?thesis by blast
  next
    case False
    with h BackClicked have "s' = s" by (auto simp: previous_def split: if_splits)
    then show ?thesis by simp
  qed
next
  case ForwardClicked
  show ?thesis
  proof (cases "forward_enabled s \<and> index s < int (length (files_list s)) - 1")
    case True
    with h ForwardClicked have "double_click e (current_item (set_current_row (index s + 1) s))
        (set_current_row (index s + 1) s) = Inr s'"
      by (simp add: next'_def Let_def)
    from skip_outcome [OF this] show ?thesis by blast
  next
    case False
    with h ForwardClicked have "s' = s" by (auto simp: next'_def split: if_splits)
    then show ?thesis by simp
  qed
next
  case (MediaStatusChanged status)
  show ?thesis
  proof (cases "status = EndOfMedia \<and> index s < int (length (files_list s)) - 1")
    case True
    with h MediaStatusChanged
    have "double_click e (current_item (set_current_row (index s + 1) s))
        (set_current_row (index s + 1) s) = Inr s'"
      by (simp add: finished_def next'_def Let_def)
    from skip_outcome [OF this] show ?thesis by blast
  next
    case False
    with h MediaStatusChanged have "s' = s" by (auto simp: finished_def next'_def split: if_splits)
    then show ?thesis by simp
  qed
next
  case (DurationChanged t)
  with h have "s' = update_length t s" by simp
  then show ?thesis by (simp add: update_length_def)
next
  case (PositionChanged t)
  with h have "s' = update_current t s" by simp
  then show ?thesis by (simp add: update_current_def)
next
  case (TimeBarMoved t)
  with h have "s' = change_time t s" by simp
  then show ?thesis by (simp add: change_time_def)
next
  case (VolumeBarMoved v)
  with h have "s' = change_volume v s" by simp
  then show ?thesis by (simp add: change_volume_def save_setting_def)
next
  case MuteClicked
  with h have "s' = mute s" by simp
  then show ?thesis by (simp add: mute_def Let_def)
next
  case HomeClicked
  with h have "change_location e (s\<lparr>location := HOME e\<rparr>) = Inr s'" by (simp add: home_def)
  from change_location_fields [OF this] show ?thesis by simp
next
  case UpClicked
  with h have "change_location e (s\<lparr>location := str (parent (Path (location s)))\<rparr>) = Inr s'"
    by (simp add: go_up_def)
  from change_location_fields [OF this] show ?thesis by simp
next
  case RefreshClicked
  with h have "update_files e s = Inr s'" by simp
  from update_files_fields [OF this] show ?thesis by simp
qed

lemma relist_keeps:
  assumes h: "handle e ev s = Inr s'"
    and ev: "ev = HomeClicked \<or> ev = UpClicked \<or> ev = RefreshClicked \<or>
             (\<exists>r. ev = ItemDoubleClicked r \<and>
                  is_dir e (path_div (location s) (files_list s ! r)))"
  shows "index s' = index s \<and> is_playing s' = is_playing s"
  using ev
proof (elim disjE exE conjE)
  assume "ev = HomeClicked"
  with h have "change_location e (s\<lparr>location := HOME e\<rparr>) = Inr s'" by (simp add: home_def)
  from change_location_fields [OF this] show ?thesis by simp
next
  assume "ev = UpClicked"
  with h have "change_location e (s\<lparr>location := str (parent (Path (location s)))\<rparr>) = Inr s'"
    by (simp add: go_up_def)
  from change_location_fields [OF this] show ?thesis by simp
next
  assume "ev = RefreshClicked"
  with h have "update_files e s = Inr s'" by simp
  from update_files_fields [OF this] show ?thesis by simp
next
  fix r
  assume r: "ev = ItemDoubleClicked r"
    and d: "is_dir e (path_div (location s) (files_list s ! r))"
  show ?thesis
  proof (cases "r < length (files_list s)")
    case True
    with h r have "double_click e (Some r) s = Inr s'" by simp
    from double_click_outcome [OF this] d show ?thesis by blast
  next
    case False
    with h r show ?thesis by simp
  qed
qed

text \<open>
  C1, as the code has it. Every handler that returns keeps the index at -1 or above,
  and keeps it below the length of the list when it leaves the list as it is. It keeps
  the play/pause button disabled whenever the index is -1; and from a state where this
  holds it keeps "playing only with an index other than -1". The home, up and refresh
  buttons and a double click on a directory, which list a folder anew, leave the index
  and the play flag as they are, whatever the length of the new list.
\<close>

theorem handle_preserves:
  assumes h: "handle e ev s = Inr s'"
  shows "(-1 \<le> index s \<longrightarrow> -1 \<le> index s') \<and>
     (index s < int (length (files_list s)) \<and> files_list s' = files_list s \<longrightarrow>
        index s' < int (length (files_list s'))) \<and>
     ((index s = -1 \<longrightarrow> \<not> play_pause_enabled s) \<longrightarrow>
        (index s' = -1 \<longrightarrow> \<not> play_pause_enabled s')) \<and>
     ((is_playing s \<longrightarrow> index s \<noteq> -1) \<and> (index s = -1 \<longrightarrow> \<not> play_pause_enabled s) \<longrightarrow>
        (is_playing s' \<longrightarrow> index s' \<noteq> -1)) \<and>
     (ev = HomeClicked \<or> ev = UpClicked \<or> ev = RefreshClicked \<or>
      (\<exists>r. ev = ItemDoubleClicked r \<and> is_dir e (path_div (location s) (files_list s ! r))) \<longrightarrow>
        index s' = index s \<and> is_playing s' = is_playing s)"
proof (intro conjI)
  note o = handle_outcome [OF h]
  from o show "-1 \<le> index s \<longrightarrow> -1 \<le> index s'" by auto
  from o show "index s < int (length (files_list s)) \<and> files_list s' = files_list s \<longrightarrow>
      index s' < int (length (files_list s'))"
    by auto
  from o show "(index s = -1 \<longrightarrow> \<not> play_pause_enabled s) \<longrightarrow>
      (index s' = -1 \<longrightarrow> \<not> play_pause_enabled s')"
    by auto
  from o show "(is_playing s \<longrightarrow> index s \<noteq> -1) \<and> (index s = -1 \<longrightarrow> \<not> play_pause_enabled s) \<longrightarrow>
      (is_playing s' \<longrightarrow> index s' \<noteq> -1)"
    by auto
  show "ev = HomeClicked \<or> ev = UpClicked \<or> ev = RefreshClicked \<or>
      (\<exists>r. ev = ItemDoubleClicked r \<and> is_dir e (path_div (location s) (files_list s ! r))) \<longrightarrow>
        index s' = index s \<and> is_playing s' = is_playing s"
    using relist_keeps [OF h] by blast
qed

theorem handle_preserves_witness:
  "handle ex_env StopClicked playing_last = Inr (stop playing_last) \<and>
   -1 \<le> index playing_last \<and> is_playing playing_last \<and> index playing_last \<noteq> -1 \<and>
   index playing_last < int (length (files_list playing_last)) \<and>
   files_list (stop playing_last) = files_list playing_last \<and>
   -1 \<le> index (stop playing_last) \<and> index (stop playing_last) = -1 \<and>
   index (stop playing_last) < int (length (files_list (stop playing_last))) \<and>
   \<not> is_playing (stop playing_last) \<and> \<not> play_pause_enabled (stop playing_last) \<and>
   handle ex_env HomeClicked playing_last = Inr home_after_last \<and>
   index home_after_last = index playing_last \<and>
   is_playing home_after_last = is_playing playing_last \<and>
   is_dir ex_env (path_div (location playing_last) (files_list playing_last ! 0)) \<and>
   handle ex_env (ItemDoubleClicked 0) playing_last = Inr live_after_last \<and>
   index live_after_last = index playing_last"
proof -
  have h: "handle ex_env StopClicked playing_last = Inr (stop playing_last)"
    by (simp add: playing_last_def)
  have i: "-1 \<le> index playing_last" "index playing_last \<noteq> -1" "is_playing playing_last"
    "index playing_last < int (length (files_list playing_last))"
    by (simp_all add: playing_last_def fresh_def)
  have f: "files_list (stop playing_last) = files_list playing_last"
    by (simp add: stop_def update_current_def update_length_def)
  have g: "index (stop playing_last) = -1" by (rule stop_fields)
  have d: "is_dir ex_env (path_div (location playing_last) (files_list playing_last ! 0))"
    by (simp add: playing_last_def fresh_def ex_select_live)
  note a = handle_preserves [OF h]
  note b = handle_preserves [OF ex_click_home_last]
  note c = handle_preserves [OF ex_click_live_last]
  from a i have 1: "-1 \<le> index (stop playing_last)" by blast
  from a i f have 2: "index (stop playing_last) < int (length (files_list (stop playing_last)))"
    by blast
  from a i g have 3: "\<not> play_pause_enabled (stop playing_last)" by blast
  from a i g have 4: "\<not> is_playing (stop playing_last)" by blast
  from b have 5: "index home_after_last = index playing_last"
    and 6: "is_playing home_after_last = is_playing playing_last"
    by blast+
  from c d have 7: "index live_after_last = index playing_last" by blast
  from h i f 1 g 2 4 3 ex_click_home_last 5 6 d ex_click_live_last 7
  show ?thesis by (intro conjI)
qed

text \<open>
  The claim as the specification states it fails: with \<open>b.MP3\<close> playing at index 2, a
  double click on the folder \<open>live\<close> lists two entries and leaves the index at 2.
\<close>

theorem index_outside_list:
  "startup ex_env (Some ''/home/u/Music'') None = Inr fresh \<and>
   run ex_env [ItemDoubleClicked 2, ItemDoubleClicked 0] fresh = Inr live_after_last \<and>
   is_playing live_after_last \<and>
   \<not> (index live_after_last = -1 \<or>
       (0 \<le> index live_after_last \<and>
        index live_after_last < int (length (files_list live_after_last))))"
proof (intro conjI)
  show "startup ex_env (Some ''/home/u/Music'') None = Inr fresh"
    by (rule ex_startup)
  show "run ex_env [ItemDoubleClicked 2, ItemDoubleClicked 0] fresh = Inr live_after_last"
    by (simp only: run.simps ex_click_last ex_click_live_last sum.case)
qed (simp_all add: live_after_last_def playing_last_def fresh_def)

section \<open>Play and pause after Stop and with a file loaded\<close>

text \<open>
  Stop disables the play/pause button, so a click after Stop changes nothing; with the
  button enabled, a click pauses a playing player and plays a paused one.
\<close>

lemma play_pause_after_stop: "handle e PlayPauseClicked (stop s) = Inr (stop s)"
  by (simp add: stop_fields)

lemma play_pause_flips:
  "play_pause_enabled s \<Longrightarrow>
   handle e PlayPauseClicked s =
     Inr (if is_playing s then s\<lparr>engine := engine s @ [Pause], is_playing := False\<rparr>
          else s\<lparr>engine := engine s @ [Play], is_playing := True\<rparr>)"
  by (simp add: play_pause_def play_def)

end
